theory Spec2Isabelle
  imports Main
begin

section \<open>The Pomodoro component of \<open>src/components/pomodoro-timer.tsx\<close>\<close>

text \<open>
  The component keeps two pieces of React state, \<open>state\<close> (a \<open>PomodoroState\<close>) and
  \<open>sessionStart\<close> (\<open>number | null\<close>), and one item of the browser's \<open>localStorage\<close>
  under the key \<open>pomodoitSessions\<close>. A handler of the source becomes a function from
  the three to the three; an exception of the source becomes \<open>Inl\<close>. The numbers of the
  state and the clock readings are modelled as \<open>int\<close> (the component adds and subtracts
  integers far below \<open>2^53\<close>, where the numbers of JavaScript are exact), JavaScript
  strings as \<open>string\<close>. Every \<open>Date.now()\<close> of the source is an
  explicit argument of the function that reads the clock. React renders the component
  and runs its effect after every event, before the next event is handled; the storage
  accepts every write.
\<close>

subsection \<open>Data\<close>

datatype TimerStatus = Idle | Running | Paused

datatype SessionType = Work | Break

record SessionLog =
  userName :: string
  sessionType :: SessionType
  startTime :: int
  endTime :: int
  interrupted :: bool

record PomodoroState =
  workDuration :: int
  breakDuration :: int
  currentTime :: int
  currentSession :: SessionType
  timerStatus :: TimerStatus
  userName :: string

text \<open>The exceptions the source can raise: both come from \<open>saveSessionToLocalStorage\<close>.\<close>

datatype exn = SyntaxError | TypeError

text \<open>The values \<open>JSON.parse\<close> returns.\<close>

datatype json =
    JNull
  | JBool bool
  | JNum int
  | JStr string
  | JArr "json list"
  | JObj "(string \<times> json) list"

text \<open>
  The browser's JSON codec is not part of the repository, and the component looks at the
  stored string through \<open>JSON.parse\<close> only. A stored string is therefore modelled by what
  the codec makes of it: the empty string, a string that \<open>JSON.parse\<close> rejects, or a
  string that encodes a value (what \<open>JSON.stringify\<close> writes, and what
  \<open>JSON.parse\<close> reads back).
\<close>

datatype stored_text = Blank | Unparsable | Encodes json

record Component =
  state :: PomodoroState
  sessionStart :: "int option"
  localStorage :: "stored_text option"

definition initialState :: PomodoroState where
  "initialState =
     \<lparr>workDuration = 90 * 60, breakDuration = 5 * 60, currentTime = 90 * 60,
      currentSession = Work, timerStatus = Idle, userName = ''''\<rparr>"

text \<open>The component as mounted; the stored item is whatever the browser holds.\<close>

definition mount :: "stored_text option \<Rightarrow> Component" where
  "mount item = \<lparr>state = initialState, sessionStart = None, localStorage = item\<rparr>"

subsection \<open>The persistence sink\<close>

definition JSON_parse :: "stored_text \<Rightarrow> exn + json" where
  "JSON_parse t = (case t of Blank \<Rightarrow> Inl SyntaxError | Unparsable \<Rightarrow> Inl SyntaxError | Encodes v \<Rightarrow> Inr v)"

definition JSON_stringify :: "json \<Rightarrow> stored_text" where
  "JSON_stringify v = Encodes v"

text \<open>What \<open>JSON.stringify\<close> makes of a \<open>SessionLog\<close> object: its five own properties, in
  the order of the object literal in \<open>handleEndSession\<close>.\<close>

definition sessionTypeName :: "SessionType \<Rightarrow> string" where
  "sessionTypeName k = (case k of Work \<Rightarrow> ''work'' | Break \<Rightarrow> ''break'')"

definition toJSON :: "SessionLog \<Rightarrow> json" where
  "toJSON l =
     JObj [(''userName'', JStr (SessionLog.userName l)),
           (''sessionType'', JStr (sessionTypeName (sessionType l))),
           (''startTime'', JNum (startTime l)),
           (''endTime'', JNum (endTime l)),
           (''interrupted'', JBool (interrupted l))]"

text \<open>\<open>sessionLogs.push(session)\<close>: only an array has \<open>push\<close>; on \<open>null\<close> the property
  access fails, on any other value \<open>push\<close> is not a function.\<close>

definition push :: "json \<Rightarrow> json \<Rightarrow> exn + json" where
  "push logs x = (case logs of JArr xs \<Rightarrow> Inr (JArr (xs @ [x])) | _ \<Rightarrow> Inl TypeError)"

text \<open>\<open>if (storedData)\<close>: \<open>null\<close> and the empty string are falsy.\<close>

definition truthy_text :: "stored_text option \<Rightarrow> bool" where
  "truthy_text d = (case d of None \<Rightarrow> False | Some Blank \<Rightarrow> False | Some _ \<Rightarrow> True)"

definition saveSessionToLocalStorage :: "SessionLog \<Rightarrow> stored_text option \<Rightarrow> exn + stored_text option" where
  "saveSessionToLocalStorage session storedData =
     (case (if truthy_text storedData
            then (case storedData of Some t \<Rightarrow> JSON_parse t | None \<Rightarrow> Inr (JArr []))
            else Inr (JArr [])) of
        Inl e \<Rightarrow> Inl e
      | Inr sessionLogs \<Rightarrow>
          (case push sessionLogs (toJSON session) of
             Inl e \<Rightarrow> Inl e
           | Inr logs' \<Rightarrow> Inr (Some (JSON_stringify logs'))))"

subsection \<open>Session closure and session switch\<close>

text \<open>\<open>!sessionStart\<close>: \<open>null\<close> and the number \<open>0\<close> are falsy.\<close>

definition falsy_num :: "int option \<Rightarrow> bool" where
  "falsy_num v = (case v of None \<Rightarrow> True | Some t \<Rightarrow> t = 0)"

definition startNewSession :: "int \<Rightarrow> Component \<Rightarrow> Component" where
  "startNewSession now c = c\<lparr>sessionStart := Some now\<rparr>"

definition handleEndSession :: "bool \<Rightarrow> int \<Rightarrow> Component \<Rightarrow> exn + Component" where
  "handleEndSession wasInterrupted now c =
     (if falsy_num (sessionStart c) then Inr c
      else (case sessionStart c of
              None \<Rightarrow> Inr c
            | Some t \<Rightarrow>
                (case saveSessionToLocalStorage
                        \<lparr>SessionLog.userName = userName (state c),
                         sessionType = currentSession (state c),
                         startTime = t, endTime = now,
                         interrupted = wasInterrupted\<rparr>
                        (localStorage c) of
                   Inl e \<Rightarrow> Inl e
                 | Inr item \<Rightarrow> Inr (c\<lparr>localStorage := item, sessionStart := None\<rparr>))))"

definition handleSessionSwitch :: "int \<Rightarrow> Component \<Rightarrow> Component" where
  "handleSessionSwitch now c =
     startNewSession now
       (c\<lparr>state := (let prev = state c; isWorkSession = (currentSession prev = Work) in
            prev\<lparr>currentSession := (if isWorkSession then Break else Work),
                 currentTime := (if isWorkSession then breakDuration prev else workDuration prev)\<rparr>)\<rparr>)"

subsection \<open>The handlers\<close>

text \<open>\<open>handleStartPause\<close> returns the text of the \<open>alert\<close> it shows, if any.\<close>

definition handleStartPause :: "int \<Rightarrow> Component \<Rightarrow> string option \<times> Component" where
  "handleStartPause now c =
     (if userName (state c) = '''' then (Some ''Por favor, insira seu nome antes de iniciar!'', c)
      else if timerStatus (state c) = Running
      then (None, c\<lparr>state := (state c)\<lparr>timerStatus := Paused\<rparr>\<rparr>)
      else (let c' = c\<lparr>state := (state c)\<lparr>timerStatus := Running\<rparr>\<rparr>
            in (None, if falsy_num (sessionStart c) then startNewSession now c' else c')))"

definition resetState :: "PomodoroState \<Rightarrow> PomodoroState" where
  "resetState prev = prev\<lparr>currentTime := workDuration prev, currentSession := Work, timerStatus := Idle\<rparr>"

definition handleInterrupt :: "int \<Rightarrow> Component \<Rightarrow> exn + Component" where
  "handleInterrupt now c =
     (if timerStatus (state c) \<noteq> Idle
      then (case handleEndSession True now c of
              Inl e \<Rightarrow> Inl e
            | Inr c' \<Rightarrow> Inr (c'\<lparr>state := resetState (state c')\<rparr>))
      else Inr c)"

definition handleReset :: "int \<Rightarrow> Component \<Rightarrow> exn + Component" where
  "handleReset now c =
     (case (if timerStatus (state c) = Running \<or> timerStatus (state c) = Paused
            then handleEndSession True now c else Inr c) of
        Inl e \<Rightarrow> Inl e
      | Inr c' \<Rightarrow> Inr (c'\<lparr>state := resetState (state c')\<rparr>))"

definition handleDurationChange :: "SessionType \<Rightarrow> bool \<Rightarrow> Component \<Rightarrow> Component" where
  "handleDurationChange type increment c =
     c\<lparr>state :=
         (let prev = state c; durationChange = (if increment then 60 else - 60) in
          if type = Work
          then prev\<lparr>workDuration := max 60 (workDuration prev + durationChange),
                    currentTime := (if currentSession prev = Work
                                    then max 60 (workDuration prev + durationChange)
                                    else currentTime prev)\<rparr>
          else prev\<lparr>breakDuration := max 60 (breakDuration prev + durationChange),
                    currentTime := (if currentSession prev = Break
                                    then max 60 (breakDuration prev + durationChange)
                                    else currentTime prev)\<rparr>)\<rparr>"

definition handleUserNameChange :: "string \<Rightarrow> Component \<Rightarrow> Component" where
  "handleUserNameChange v c = c\<lparr>state := (state c)\<lparr>userName := v\<rparr>\<rparr>"

subsection \<open>The countdown\<close>

text \<open>The callback of \<open>setInterval\<close>.\<close>

definition tick :: "Component \<Rightarrow> Component" where
  "tick c = c\<lparr>state := (state c)\<lparr>currentTime := currentTime (state c) - 1\<rparr>\<rparr>"

text \<open>
  The body of the effect. Its first branch arms the interval and changes no state. Its
  second branch closes the session that ran out and opens the next one; the two
  \<open>Date.now()\<close> it reads are \<open>now1\<close> (the end of the old session) and \<open>now2\<close> (the start
  of the new one).
\<close>

definition useEffect :: "int \<Rightarrow> int \<Rightarrow> Component \<Rightarrow> exn + Component" where
  "useEffect now1 now2 c =
     (if timerStatus (state c) = Running \<and> currentTime (state c) > 0 then Inr c
      else if currentTime (state c) = 0
      then (case handleEndSession False now1 c of
              Inl e \<Rightarrow> Inl e
            | Inr c' \<Rightarrow> Inr (handleSessionSwitch now2 c'))
      else Inr c)"

text \<open>
  React runs the effect after a render whose dependencies \<open>[state.timerStatus,
  state.currentTime]\<close> differ from those of the render before. When the second branch
  has run, the dependencies differ again only if the new \<open>currentTime\<close> is not \<open>0\<close>, and
  then the effect changes no state: one run of the body is all there is.
\<close>

definition rerender :: "int \<Rightarrow> int \<Rightarrow> Component \<Rightarrow> Component \<Rightarrow> exn + Component" where
  "rerender now1 now2 old new =
     (if timerStatus (state old) \<noteq> timerStatus (state new)
         \<or> currentTime (state old) \<noteq> currentTime (state new)
      then useEffect now1 now2 new else Inr new)"

subsection \<open>Events\<close>

datatype event =
    StartPause
  | Interrupt
  | Reset
  | DurationChange SessionType bool
  | UserNameChange string
  | Tick

fun handler :: "event \<Rightarrow> int \<Rightarrow> Component \<Rightarrow> exn + Component" where
  "handler StartPause now c = Inr (snd (handleStartPause now c))"
| "handler Interrupt now c = handleInterrupt now c"
| "handler Reset now c = handleReset now c"
| "handler (DurationChange type increment) now c = Inr (handleDurationChange type increment c)"
| "handler (UserNameChange v) now c = Inr (handleUserNameChange v c)"
| "handler Tick now c = Inr (tick c)"

text \<open>One event: the handler, then the render and its effect. \<open>now\<close> is the clock the
  handler reads, \<open>now1\<close> and \<open>now2\<close> are the clocks the effect reads.\<close>

definition step :: "event \<Rightarrow> int \<Rightarrow> int \<Rightarrow> int \<Rightarrow> Component \<Rightarrow> exn + Component" where
  "step e now now1 now2 c =
     (case handler e now c of Inl x \<Rightarrow> Inl x | Inr c' \<Rightarrow> rerender now1 now2 c c')"

text \<open>The interval is armed by the first branch of the effect only, and every change of
  the dependencies clears it: a tick arrives only while the timer runs with time left.\<close>

fun enabled :: "event \<Rightarrow> Component \<Rightarrow> bool" where
  "enabled Tick c = (timerStatus (state c) = Running \<and> currentTime (state c) > 0)"
| "enabled _ c = True"


text \<open>
  The states the component can be in: it is mounted over any stored item, and every
  event that returns takes it to the next state. \<open>Date.now()\<close> counts the milliseconds
  since 1970 and is positive.
\<close>

inductive reachable :: "Component \<Rightarrow> bool" where
  mounted: "reachable (mount item)"
| after: "reachable c \<Longrightarrow> enabled e c \<Longrightarrow> 0 < now \<Longrightarrow> 0 < now1 \<Longrightarrow> 0 < now2 \<Longrightarrow>
          step e now now1 now2 c = Inr c' \<Longrightarrow> reachable c'"

subsection \<open>\<open>formatTime\<close>\<close>

text \<open>
  \<open>formatTime\<close> divides, and prints what it gets: here the numbers of JavaScript are
  what they are, IEEE doubles. A number with an integer value is held as that integer;
  the counted seconds of the component are such numbers. The quotient \<open>seconds / 60\<close> is
  the double nearest to the exact quotient, held as a pair \<open>(n, k)\<close> that stands for
  \<open>n / 2^k\<close>.
\<close>

fun digits :: "nat \<Rightarrow> string" where
  "digits n = (if n < 10 then [char_of (48 + n)] else digits (n div 10) @ [char_of (48 + n mod 10)])"

text \<open>The number of binary digits of \<open>n\<close>.\<close>

fun bits :: "nat \<Rightarrow> nat" where
  "bits n = (if n = 0 then 0 else Suc (bits (n div 2)))"

text \<open>\<open>a / b\<close> rounded to the nearest integer, a tie to the even one.\<close>

definition rne :: "nat \<Rightarrow> nat \<Rightarrow> nat" where
  "rne a b =
     (let d = a div b; r = a mod b
      in if 2 * r < b then d else if b < 2 * r then d + 1 else if even d then d else d + 1)"

text \<open>The double nearest to an integer: 53 significant binary digits are kept.\<close>

definition nearest_double :: "nat \<Rightarrow> nat" where
  "nearest_double a = (if a \<le> 2 ^ 53 then a else (let u = 2 ^ (bits a - 53) in rne a u * u))"

text \<open>An integer as a JavaScript number: the number nearest to it, as for a numeric
  literal. An integer that is a double is left as it is.\<close>

definition to_number :: "int \<Rightarrow> int" where
  "to_number i = (if i < 0 then - int (nearest_double (nat (- i))) else int (nearest_double (nat i)))"

text \<open>
  \<open>a / 60\<close> for a number \<open>a \<ge> 0\<close>. With \<open>2^e \<le> a * 64 / 60 < 2^(e+1)\<close> the quotient lies
  between \<open>2^(e-6)\<close> and \<open>2^(e-5)\<close>, where doubles are \<open>2^(e-58)\<close> apart.
\<close>

definition divide60 :: "nat \<Rightarrow> nat \<times> nat" where
  "divide60 a =
     (if a = 0 then (0, 0)
      else (let e = bits ((a * 64) div 60) - 1
            in if e < 58 then (rne (a * 2 ^ (58 - e)) 60, 58 - e)
               else (rne a (60 * 2 ^ (e - 58)) * 2 ^ (e - 58), 0)))"

definition js_divide60 :: "int \<Rightarrow> int \<times> nat" where
  "js_divide60 x =
     (let (n, k) = divide60 (nat \<bar>x\<bar>) in (if x < 0 then - int n else int n, k))"

definition Math_floor :: "int \<times> nat \<Rightarrow> int" where
  "Math_floor q = (case q of (n, k) \<Rightarrow> n div 2 ^ k)"

text \<open>
  \<open>Number.prototype.toString\<close> on a number with an integer value. Up to \<open>2^53\<close> it
  prints the decimal digits of the integer. Above, it prints the integer with the
  fewest significant digits among those whose nearest double is the number, the closest
  one when there are two; and from 22 digits on it prints that in exponent notation.
  \<open>shortest_at x j\<close> looks for such an integer among the multiples of \<open>10^j\<close>, then of
  \<open>10^(j-1)\<close>, and so on down to \<open>x\<close> itself.
\<close>

fun shortest_at :: "nat \<Rightarrow> nat \<Rightarrow> nat" where
  "shortest_at x j =
     (if j = 0 then x
      else (let m = 10 ^ j; lo = (x div m) * m; hi = lo + m;
                fromLo = (nearest_double lo = x); fromHi = (nearest_double hi = x)
            in if fromLo \<and> fromHi
               then (if x - lo < hi - x then lo else if hi - x < x - lo then hi
                     else if even (x div m) then lo else hi)
               else if fromLo then lo else if fromHi then hi else shortest_at x (j - 1)))"

definition shortest :: "nat \<Rightarrow> nat" where
  "shortest x = shortest_at x (length (digits x) - 1)"

definition exponential :: "string \<Rightarrow> string" where
  "exponential ds =
     (let sig = rev (dropWhile (\<lambda>ch. ch = CHR ''0'') (rev ds));
          ex = ''e+'' @ digits (length ds - 1)
      in if length sig = 1 then sig @ ex else hd sig # CHR ''.'' # tl sig @ ex)"

definition toString_nat :: "nat \<Rightarrow> string" where
  "toString_nat x =
     (if x \<le> 2 ^ 53 then digits x
      else (let ds = digits (shortest x) in if length ds \<le> 21 then ds else exponential ds))"

definition toString :: "int \<Rightarrow> string" where
  "toString i = (if i < 0 then CHR ''-'' # toString_nat (nat (- i)) else toString_nat (nat i))"

definition padStart :: "nat \<Rightarrow> char \<Rightarrow> string \<Rightarrow> string" where
  "padStart targetLength padChar s = replicate (targetLength - length s) padChar @ s"

text \<open>JavaScript's \<open>%\<close> truncates: the result has the sign of the dividend. On doubles
  it is exact.\<close>

definition js_rem :: "int \<Rightarrow> int \<Rightarrow> int" where
  "js_rem a b = (if a < 0 then - (\<bar>a\<bar> mod \<bar>b\<bar>) else \<bar>a\<bar> mod \<bar>b\<bar>)"

text \<open>An integer of \<open>2^1024\<close> or more is the number \<open>Infinity\<close>: its quotient is
  \<open>Infinity\<close> and its remainder is \<open>NaN\<close>.\<close>

definition formatTime :: "int \<Rightarrow> string" where
  "formatTime secs =
     (let seconds = to_number secs in
      if 2 ^ 1024 \<le> \<bar>seconds\<bar>
      then (if seconds < 0 then ''-Infinity:NaN'' else ''Infinity:NaN'')
      else (let minutes = Math_floor (js_divide60 seconds); remainingSeconds = js_rem seconds 60
            in padStart 2 CHR ''0'' (toString minutes) @ '':'' @ padStart 2 CHR ''0'' (toString remainingSeconds)))"

section \<open>Vocabulary of the properties\<close>

subsection \<open>What the sink reads, and what stays of it\<close>

text \<open>
  The sequence \<open>saveSessionToLocalStorage\<close> appends to, when it can: nothing stored and
  the empty string stand for the empty sequence, a stored array for its elements. Any
  other stored text makes the append raise.
\<close>

definition existing :: "stored_text option \<Rightarrow> json list option" where
  "existing d =
     (case d of
        None \<Rightarrow> Some []
      | Some Blank \<Rightarrow> Some []
      | Some Unparsable \<Rightarrow> None
      | Some (Encodes v) \<Rightarrow> (case v of JArr xs \<Rightarrow> Some xs | _ \<Rightarrow> None))"

text \<open>
  \<open>preserved d d'\<close>: the stored item \<open>d'\<close> is \<open>d\<close> itself, or both are sequences and
  \<open>d'\<close> starts with all the elements of \<open>d\<close>, in their order.
\<close>

definition preserved :: "stored_text option \<Rightarrow> stored_text option \<Rightarrow> bool" where
  "preserved d d' =
     (d' = d \<or> (case existing d of
                  None \<Rightarrow> False
                | Some xs \<Rightarrow> (case existing d' of
                                None \<Rightarrow> False
                              | Some zs \<Rightarrow> take (length xs) zs = xs)))"

subsection \<open>Reading the log back\<close>

text \<open>
  The component never reads its log back. Reloading is written here from the words of
  the specification: \<open>JSON.parse\<close> on the stored item, and on every element of the array
  the five properties of a \<open>SessionLog\<close>.
\<close>

definition sessionTypeOfName :: "string \<Rightarrow> SessionType option" where
  "sessionTypeOfName s = (if s = ''work'' then Some Work else if s = ''break'' then Some Break else None)"

definition fromJSON :: "json \<Rightarrow> SessionLog option" where
  "fromJSON v =
     (case v of
        JObj kvs \<Rightarrow>
          (case (map_of kvs ''userName'', map_of kvs ''sessionType'', map_of kvs ''startTime'',
                 map_of kvs ''endTime'', map_of kvs ''interrupted'') of
             (Some (JStr u), Some (JStr k), Some (JNum s), Some (JNum e), Some (JBool i)) \<Rightarrow>
               (case sessionTypeOfName k of
                  Some ty \<Rightarrow> Some \<lparr>SessionLog.userName = u, sessionType = ty, startTime = s,
                                    endTime = e, interrupted = i\<rparr>
                | None \<Rightarrow> None)
           | _ \<Rightarrow> None)
      | _ \<Rightarrow> None)"

definition reload :: "stored_text option \<Rightarrow> SessionLog list option" where
  "reload d =
     (case d of
        None \<Rightarrow> None
      | Some t \<Rightarrow> (case JSON_parse t of Inr (JArr xs) \<Rightarrow> those (map fromJSON xs) | _ \<Rightarrow> None))"

subsection \<open>The invariant of the component\<close>

text \<open>
  A session is open when \<open>sessionStart\<close> holds a clock reading. In every state of the
  component both durations are at least 60 and there is time left; while the timer is
  idle no session is open, the session type is \<open>work\<close> and the time left is the whole
  work duration; while it runs or is paused a session is open.
\<close>

definition open_session :: "Component \<Rightarrow> bool" where
  "open_session c = (case sessionStart c of None \<Rightarrow> False | Some t \<Rightarrow> 0 < t)"

definition invariant :: "Component \<Rightarrow> bool" where
  "invariant c =
     (60 \<le> workDuration (state c) \<and> 60 \<le> breakDuration (state c) \<and> 0 < currentTime (state c)
      \<and> (if timerStatus (state c) = Idle
         then sessionStart c = None \<and> currentSession (state c) = Work
              \<and> currentTime (state c) = workDuration (state c)
         else open_session c))"

subsection \<open>Decimal strings\<close>

text \<open>Reading a string of decimal digits as a number, most significant digit first.\<close>

definition decimal_digit :: "char \<Rightarrow> bool" where
  "decimal_digit ch = (48 \<le> (of_char ch :: nat) \<and> (of_char ch :: nat) \<le> 57)"

definition digit_value :: "char \<Rightarrow> nat" where
  "digit_value ch = of_char ch - 48"

definition read_decimal :: "string \<Rightarrow> nat" where
  "read_decimal s = foldl (\<lambda>a ch. 10 * a + digit_value ch) 0 s"

subsection \<open>Two states of the component\<close>

text \<open>The component mounted over an empty storage after the name \<open>ann\<close> was typed, and
  the same after Start was pressed at clock 1000.\<close>

definition example_named :: Component where
  "example_named =
     \<lparr>state = \<lparr>workDuration = 5400, breakDuration = 300, currentTime = 5400,
               currentSession = Work, timerStatus = Idle, userName = ''ann''\<rparr>,
      sessionStart = None, localStorage = None\<rparr>"

definition example_running :: Component where
  "example_running =
     \<lparr>state = \<lparr>workDuration = 5400, breakDuration = 300, currentTime = 5400,
               currentSession = Work, timerStatus = Running, userName = ''ann''\<rparr>,
      sessionStart = Some 1000, localStorage = None\<rparr>"

text \<open>The same two states over a stored text that is not JSON.\<close>

definition example_named_stuck :: Component where
  "example_named_stuck =
     \<lparr>state = \<lparr>workDuration = 5400, breakDuration = 300, currentTime = 5400,
               currentSession = Work, timerStatus = Idle, userName = ''ann''\<rparr>,
      sessionStart = None, localStorage = Some Unparsable\<rparr>"

definition example_stuck :: Component where
  "example_stuck =
     \<lparr>state = \<lparr>workDuration = 5400, breakDuration = 300, currentTime = 5400,
               currentSession = Work, timerStatus = Running, userName = ''ann''\<rparr>,
      sessionStart = Some 1000, localStorage = Some Unparsable\<rparr>"

section \<open>Properties\<close>

subsection \<open>Appending to what is stored\<close>

lemma existing_array [simp]: "existing (Some (Encodes (JArr xs))) = Some xs"
  by (simp add: existing_def)

lemma save_existing:
  "existing d = Some xs \<Longrightarrow>
   saveSessionToLocalStorage session d = Inr (Some (Encodes (JArr (xs @ [toJSON session]))))"
  by (auto simp: existing_def saveSessionToLocalStorage_def truthy_text_def JSON_parse_def
      JSON_stringify_def push_def split: option.splits stored_text.splits json.splits)

subsection \<open>The sink on an absent or malformed item\<close>

text \<open>
  C1, as the code has it. With nothing stored, or the empty string stored, the sink
  writes the one-element sequence of the new entry. A stored text that is not JSON makes
  \<open>JSON.parse\<close> raise \<open>SyntaxError\<close>; a stored JSON value that is not an array (\<open>null\<close>,
  a boolean, a number, a string, an object) makes \<open>push\<close> raise \<open>TypeError\<close>; nothing
  catches either, and nothing is written. A stored array, of records or not, is kept and
  extended by the new entry.
\<close>

theorem C1_sink_absent_or_malformed:
  "saveSessionToLocalStorage session None = Inr (Some (Encodes (JArr [toJSON session])))
   \<and> saveSessionToLocalStorage session (Some Blank) = Inr (Some (Encodes (JArr [toJSON session])))
   \<and> saveSessionToLocalStorage session (Some Unparsable) = Inl SyntaxError
   \<and> saveSessionToLocalStorage session (Some (Encodes JNull)) = Inl TypeError
   \<and> saveSessionToLocalStorage session (Some (Encodes (JBool b))) = Inl TypeError
   \<and> saveSessionToLocalStorage session (Some (Encodes (JNum n))) = Inl TypeError
   \<and> saveSessionToLocalStorage session (Some (Encodes (JStr s))) = Inl TypeError
   \<and> saveSessionToLocalStorage session (Some (Encodes (JObj kvs))) = Inl TypeError
   \<and> saveSessionToLocalStorage session (Some (Encodes (JArr xs)))
       = Inr (Some (Encodes (JArr (xs @ [toJSON session]))))"
  by (simp add: saveSessionToLocalStorage_def truthy_text_def JSON_parse_def
      JSON_stringify_def push_def)

text \<open>
  C1 as the specification states it fails: over a stored text that is not JSON (the
  string \<open>oops\<close>, say) the append does not write a one-element sequence, it raises.
\<close>

theorem C1_malformed_raises:
  "saveSessionToLocalStorage
     \<lparr>SessionLog.userName = ''ann'', sessionType = Work, startTime = 1000, endTime = 2000,
      interrupted = False\<rparr> (Some Unparsable) = Inl SyntaxError"
  by (simp add: saveSessionToLocalStorage_def truthy_text_def JSON_parse_def)

subsection \<open>Changing a duration\<close>


subsection \<open>Starting without a name\<close>

text \<open>
  C5: with an empty \<open>userName\<close>, \<open>handleStartPause\<close> shows its alert and returns; the
  state, the open session start and the stored item are what they were, so the status
  stays what it was and no session start is opened.
\<close>

theorem C5_start_without_name:
  "userName (state c) = '''' \<Longrightarrow>
   handleStartPause now c = (Some ''Por favor, insira seu nome antes de iniciar!'', c)
   \<and> step StartPause now now1 now2 c = Inr c"
  by (simp add: handleStartPause_def step_def rerender_def)

theorem C5_start_without_name_witness:
  "userName (state (mount None)) = ''''
   \<and> handleStartPause 1000 (mount None) = (Some ''Por favor, insira seu nome antes de iniciar!'', mount None)
   \<and> step StartPause 1000 1001 1002 (mount None) = Inr (mount None)"
  using C5_start_without_name [of "mount None" 1000 1001 1002] by (simp add: mount_def initialState_def)

subsection \<open>The invariant holds in every reachable state\<close>

lemma invariant_mount: "invariant (mount item)"
  by (simp add: invariant_def mount_def initialState_def)

lemma endSession_open:
  assumes "sessionStart c = Some t" "t \<noteq> 0" "existing (localStorage c) = Some xs"
  shows "handleEndSession b now c =
         Inr (c\<lparr>localStorage := Some (Encodes (JArr (xs @
                  [toJSON \<lparr>SessionLog.userName = userName (state c),
                           sessionType = currentSession (state c),
                           startTime = t, endTime = now, interrupted = b\<rparr>]))),
                sessionStart := None\<rparr>)"
  using assms by (simp add: handleEndSession_def falsy_num_def save_existing)

lemma endSession_result:
  assumes "handleEndSession b now c = Inr c'"
  shows "state c' = state c \<and> (sessionStart c' = None \<or> sessionStart c' = Some 0)"
  using assms
  by (auto simp: handleEndSession_def falsy_num_def split: if_splits option.splits sum.splits)

lemma endSession_open_result:
  assumes "handleEndSession b now c = Inr c'" "open_session c"
  shows "state c' = state c \<and> sessionStart c' = None"
  using assms
  by (auto simp: handleEndSession_def falsy_num_def open_session_def split: if_splits option.splits sum.splits)

lemma open_session_state [simp]: "open_session (c\<lparr>state := s\<rparr>) = open_session c"
  by (simp add: open_session_def)

lemma invariant_positive: "invariant c \<Longrightarrow> 0 < currentTime (state c)"
  by (simp add: invariant_def)

lemma rerender_positive:
  "0 < currentTime (state new) \<Longrightarrow> rerender now1 now2 old new = Inr new"
  by (simp add: rerender_def useEffect_def)

lemma inv_handleStartPause:
  assumes "invariant c" "0 < now"
  shows "invariant (snd (handleStartPause now c))"
proof (cases "userName (state c) = ''''")
  case True
  then show ?thesis using assms by (simp add: handleStartPause_def)
next
  case False
  show ?thesis
  proof (cases "timerStatus (state c)")
    case Idle
    with False assms show ?thesis
      by (simp add: handleStartPause_def invariant_def open_session_def falsy_num_def
          startNewSession_def)
  next
    case Running
    with False assms show ?thesis
      by (simp add: handleStartPause_def invariant_def open_session_def)
  next
    case Paused
    with False assms show ?thesis
      by (simp add: handleStartPause_def invariant_def open_session_def falsy_num_def
          startNewSession_def split: option.splits)
  qed
qed

lemma inv_resetState:
  assumes "invariant c" "sessionStart c' = None" "state c' = state c"
  shows "invariant (c'\<lparr>state := resetState (state c')\<rparr>)"
  using assms by (simp add: invariant_def resetState_def)

lemma inv_handleInterrupt:
  assumes "invariant c" "handleInterrupt now c = Inr c'"
  shows "invariant c'"
proof (cases "timerStatus (state c) = Idle")
  case True
  with assms show ?thesis by (simp add: handleInterrupt_def)
next
  case False
  with assms(1) have op: "open_session c" by (simp add: invariant_def)
  from False assms(2) obtain d where d: "handleEndSession True now c = Inr d"
    and c': "c' = d\<lparr>state := resetState (state d)\<rparr>"
    by (auto simp: handleInterrupt_def split: sum.splits)
  from endSession_open_result [OF d op] assms(1) show ?thesis
    unfolding c' by (intro inv_resetState) auto
qed

lemma inv_handleReset:
  assumes "invariant c" "handleReset now c = Inr c'"
  shows "invariant c'"
proof (cases "timerStatus (state c) = Idle")
  case True
  with assms have "c' = c\<lparr>state := resetState (state c)\<rparr>"
    by (auto simp: handleReset_def)
  moreover from True assms(1) have "sessionStart c = None" by (simp add: invariant_def)
  ultimately show ?thesis using assms(1) by (simp add: inv_resetState)
next
  case False
  with assms(1) have op: "open_session c" by (simp add: invariant_def)
  from False have "timerStatus (state c) = Running \<or> timerStatus (state c) = Paused"
    by (cases "timerStatus (state c)") auto
  with assms(2) obtain d where d: "handleEndSession True now c = Inr d"
    and c': "c' = d\<lparr>state := resetState (state d)\<rparr>"
    by (auto simp: handleReset_def split: sum.splits)
  from endSession_open_result [OF d op] assms(1) show ?thesis
    unfolding c' by (intro inv_resetState) auto
qed

lemma inv_handleDurationChange:
  assumes "invariant c"
  shows "invariant (handleDurationChange type increment c)"
  using assms
  by (cases type; cases "currentSession (state c)")
     (auto simp: handleDurationChange_def invariant_def Let_def)

lemma inv_handleUserNameChange:
  assumes "invariant c"
  shows "invariant (handleUserNameChange v c)"
  using assms by (simp add: handleUserNameChange_def invariant_def)


lemma inv_tick:
  assumes "invariant c" "enabled Tick c" "0 < now2"
    and "step Tick now now1 now2 c = Inr c'"
  shows "invariant c'"
proof (cases "currentTime (state c) = 1")
  case False
  with assms(1,2) have pos: "0 < currentTime (state (tick c))"
    by (simp add: tick_def)
  with assms(4) have "c' = tick c"
    by (simp add: step_def rerender_positive)
  with assms(1,2) pos show ?thesis
    by (simp add: invariant_def tick_def)
next
  case True
  with assms(1,2) have op: "open_session (tick c)"
    by (simp add: invariant_def tick_def)
  from True assms(2,4) obtain d where d: "handleEndSession False now1 (tick c) = Inr d"
    and c': "c' = handleSessionSwitch now2 d"
    by (auto simp: step_def rerender_def useEffect_def tick_def split: sum.splits)
  from endSession_open_result [OF d op] have "state d = state (tick c)" by simp
  with assms(1,2,3) show ?thesis
    unfolding c'
    by (simp add: invariant_def handleSessionSwitch_def startNewSession_def tick_def Let_def
        open_session_def)
qed

lemma invariant_step:
  assumes "invariant c" "enabled e c" "0 < now" "0 < now1" "0 < now2"
    and "step e now now1 now2 c = Inr c'"
  shows "invariant c'"
proof (cases e)
  case StartPause
  have "invariant (snd (handleStartPause now c))"
    using assms(1,3) by (rule inv_handleStartPause)
  with assms(6) StartPause show ?thesis
    by (simp add: step_def rerender_positive invariant_positive)
next
  case Interrupt
  with assms(6) obtain d where d: "handleInterrupt now c = Inr d"
    and r: "rerender now1 now2 c d = Inr c'"
    by (auto simp: step_def split: sum.splits)
  from inv_handleInterrupt [OF assms(1) d] r show ?thesis
    by (simp add: rerender_positive invariant_positive)
next
  case Reset
  with assms(6) obtain d where d: "handleReset now c = Inr d"
    and r: "rerender now1 now2 c d = Inr c'"
    by (auto simp: step_def split: sum.splits)
  from inv_handleReset [OF assms(1) d] r show ?thesis
    by (simp add: rerender_positive invariant_positive)
next
  case (DurationChange k inc)
  have "invariant (handleDurationChange k inc c)"
    using assms(1) by (rule inv_handleDurationChange)
  with assms(6) DurationChange show ?thesis
    by (simp add: step_def rerender_positive invariant_positive)
next
  case (UserNameChange v)
  have "invariant (handleUserNameChange v c)"
    using assms(1) by (rule inv_handleUserNameChange)
  with assms(6) UserNameChange show ?thesis
    by (simp add: step_def rerender_positive invariant_positive)
next
  case Tick
  with assms show ?thesis by (auto intro: inv_tick)
qed

lemma reachable_invariant: "reachable c \<Longrightarrow> invariant c"
  by (induction rule: reachable.induct) (auto intro: invariant_mount invariant_step)


lemma reachable_example_named: "reachable example_named"
proof -
  have s: "step (UserNameChange ''ann'') 1 1 1 (mount None) = Inr example_named"
    by (simp add: step_def rerender_def handleUserNameChange_def mount_def initialState_def
        example_named_def)
  show ?thesis
    by (rule reachable.after [OF reachable.mounted [of None] _ _ _ _ s]) simp_all
qed

lemma reachable_example_running: "reachable example_running"
proof -
  have s: "step StartPause 1000 1 1 example_named = Inr example_running"
    by (simp add: step_def rerender_def useEffect_def handleStartPause_def falsy_num_def
        startNewSession_def example_named_def example_running_def)
  show ?thesis
    by (rule reachable.after [OF reachable_example_named _ _ _ _ s]) simp_all
qed

lemma reachable_example_stuck: "reachable example_stuck"
proof -
  have s1: "step (UserNameChange ''ann'') 1 1 1 (mount (Some Unparsable)) = Inr example_named_stuck"
    by (simp add: step_def rerender_def handleUserNameChange_def mount_def initialState_def
        example_named_stuck_def)
  have r1: "reachable example_named_stuck"
    by (rule reachable.after [OF reachable.mounted [of "Some Unparsable"] _ _ _ _ s1]) simp_all
  have s2: "step StartPause 1000 1 1 example_named_stuck = Inr example_stuck"
    by (simp add: step_def rerender_def useEffect_def handleStartPause_def falsy_num_def
        startNewSession_def example_named_stuck_def example_stuck_def)
  show ?thesis
    by (rule reachable.after [OF r1 _ _ _ _ s2]) simp_all
qed

lemma save_raises:
  assumes "existing d = None"
  shows "\<exists>x. saveSessionToLocalStorage l d = Inl x"
  using assms
  by (auto simp: existing_def saveSessionToLocalStorage_def truthy_text_def JSON_parse_def
      push_def split: option.splits stored_text.splits json.splits)

lemma endSession_raises:
  assumes "sessionStart c = Some t" "t \<noteq> 0" "existing (localStorage c) = None"
  shows "\<exists>x. handleEndSession b now c = Inl x"
proof -
  from save_raises [OF assms(3)] obtain x where
    "saveSessionToLocalStorage
       \<lparr>SessionLog.userName = userName (state c), sessionType = currentSession (state c),
        startTime = t, endTime = now, interrupted = b\<rparr> (localStorage c) = Inl x"
    by blast
  with assms(1,2) show ?thesis
    by (simp add: handleEndSession_def falsy_num_def)
qed

subsection \<open>The open session start\<close>

text \<open>
  C6: in every reachable state \<open>sessionStart\<close> is not \<open>null\<close> exactly when the timer is
  running or paused, and is \<open>null\<close> exactly when the timer is idle.
\<close>

theorem C6_session_start_open:
  "reachable c \<Longrightarrow>
   (sessionStart c \<noteq> None) = (timerStatus (state c) = Running \<or> timerStatus (state c) = Paused)
   \<and> (sessionStart c = None) = (timerStatus (state c) = Idle)"
  by (drule reachable_invariant, cases "timerStatus (state c)")
     (auto simp: invariant_def open_session_def split: option.splits)

theorem C6_session_start_open_witness:
  "reachable example_running \<and> sessionStart example_running \<noteq> None
   \<and> timerStatus (state example_running) = Running
   \<and> reachable example_named \<and> sessionStart example_named = None
   \<and> timerStatus (state example_named) = Idle"
  using C6_session_start_open [OF reachable_example_running]
    C6_session_start_open [OF reachable_example_named]
    reachable_example_running reachable_example_named
  by (simp add: example_running_def example_named_def)

subsection \<open>Reset while idle\<close>

lemma resetState_idle:
  "timerStatus s = Idle \<Longrightarrow> currentSession s = Work \<Longrightarrow> currentTime s = workDuration s \<Longrightarrow>
   resetState s = s"
  by (simp add: resetState_def)

text \<open>
  C7: in a reachable idle state \<open>handleReset\<close> returns the component as it was: state,
  open session start and stored item, so no entry is appended; the render after it runs
  no effect.
\<close>

theorem C7_reset_idle:
  "reachable c \<Longrightarrow> timerStatus (state c) = Idle \<Longrightarrow>
   handleReset now c = Inr c \<and> step Reset now now1 now2 c = Inr c"
  by (drule reachable_invariant)
     (simp add: invariant_def handleReset_def step_def rerender_def resetState_idle)

theorem C7_reset_idle_witness:
  "reachable example_named \<and> timerStatus (state example_named) = Idle
   \<and> handleReset 2000 example_named = Inr example_named
   \<and> step Reset 2000 2001 2002 example_named = Inr example_named"
  using C7_reset_idle [OF reachable_example_named, of 2000 2001 2002] reachable_example_named
  by (simp add: example_named_def)

subsection \<open>Interrupt\<close>

text \<open>
  C4, as the code has it. In a reachable state whose timer is running or paused, over a
  stored item the sink can append to (nothing, the empty string or an array),
  \<open>handleInterrupt\<close> appends exactly one entry, with \<open>interrupted = true\<close>, the current
  name and session type and the open session start, closes the session start, and
  leaves the timer idle on a \<open>work\<close> session with the whole work duration left; the
  effect afterwards changes nothing. Over any other stored item the append raises,
  \<open>handleInterrupt\<close> raises with it, and nothing is appended or reset. While the timer
  is idle \<open>handleInterrupt\<close> returns the component as it was.
\<close>

theorem C4_interrupt:
  "(reachable c \<longrightarrow> timerStatus (state c) \<noteq> Idle \<longrightarrow> existing (localStorage c) = Some xs \<longrightarrow>
      (\<exists>t. sessionStart c = Some t
         \<and> handleInterrupt now c =
             Inr \<lparr>state = (state c)\<lparr>currentTime := workDuration (state c),
                                   currentSession := Work, timerStatus := Idle\<rparr>,
                  sessionStart = None,
                  localStorage = Some (Encodes (JArr (xs @
                    [toJSON \<lparr>SessionLog.userName = userName (state c),
                             sessionType = currentSession (state c),
                             startTime = t, endTime = now, interrupted = True\<rparr>])))\<rparr>
         \<and> step Interrupt now now1 now2 c = handleInterrupt now c))
   \<and> (reachable c \<longrightarrow> timerStatus (state c) \<noteq> Idle \<longrightarrow> existing (localStorage c) = None \<longrightarrow>
        (\<exists>x. handleInterrupt now c = Inl x \<and> step Interrupt now now1 now2 c = Inl x))
   \<and> (timerStatus (state c) = Idle \<longrightarrow>
        handleInterrupt now c = Inr c \<and> step Interrupt now now1 now2 c = Inr c)"
proof (intro conjI impI)
  assume r: "reachable c" and ni: "timerStatus (state c) \<noteq> Idle"
    and ex: "existing (localStorage c) = Some xs"
  from r have inv: "invariant c" by (rule reachable_invariant)
  with ni obtain t where t: "sessionStart c = Some t" "t \<noteq> 0"
    by (auto simp: invariant_def open_session_def split: option.splits)
  have h: "handleInterrupt now c =
             Inr \<lparr>state = (state c)\<lparr>currentTime := workDuration (state c),
                                   currentSession := Work, timerStatus := Idle\<rparr>,
                  sessionStart = None,
                  localStorage = Some (Encodes (JArr (xs @
                    [toJSON \<lparr>SessionLog.userName = userName (state c),
                             sessionType = currentSession (state c),
                             startTime = t, endTime = now, interrupted = True\<rparr>])))\<rparr>"
    using ni by (simp add: handleInterrupt_def endSession_open [OF t ex] resetState_def)
  have s: "step Interrupt now now1 now2 c = handleInterrupt now c"
    using inv by (simp add: step_def h rerender_positive invariant_def)
  from t h s show "\<exists>t. sessionStart c = Some t
         \<and> handleInterrupt now c =
             Inr \<lparr>state = (state c)\<lparr>currentTime := workDuration (state c),
                                   currentSession := Work, timerStatus := Idle\<rparr>,
                  sessionStart = None,
                  localStorage = Some (Encodes (JArr (xs @
                    [toJSON \<lparr>SessionLog.userName = userName (state c),
                             sessionType = currentSession (state c),
                             startTime = t, endTime = now, interrupted = True\<rparr>])))\<rparr>
         \<and> step Interrupt now now1 now2 c = handleInterrupt now c"
    by blast
next
  assume r: "reachable c" and ni: "timerStatus (state c) \<noteq> Idle"
    and ex: "existing (localStorage c) = None"
  from r have "invariant c" by (rule reachable_invariant)
  with ni obtain t where t: "sessionStart c = Some t" "t \<noteq> 0"
    by (auto simp: invariant_def open_session_def split: option.splits)
  from endSession_raises [OF t ex] obtain x where "handleEndSession True now c = Inl x"
    by blast
  with ni have "handleInterrupt now c = Inl x \<and> step Interrupt now now1 now2 c = Inl x"
    by (simp add: handleInterrupt_def step_def)
  then show "\<exists>x. handleInterrupt now c = Inl x \<and> step Interrupt now now1 now2 c = Inl x"
    by blast
next
  assume "timerStatus (state c) = Idle"
  then show "handleInterrupt now c = Inr c" by (simp add: handleInterrupt_def)
next
  assume "timerStatus (state c) = Idle"
  then show "step Interrupt now now1 now2 c = Inr c"
    by (simp add: step_def handleInterrupt_def rerender_def)
qed

theorem C4_interrupt_witness:
  "reachable example_running \<and> timerStatus (state example_running) = Running
   \<and> existing (localStorage example_running) = Some []
   \<and> handleInterrupt 2000 example_running =
       Inr \<lparr>state = \<lparr>workDuration = 5400, breakDuration = 300, currentTime = 5400,
                     currentSession = Work, timerStatus = Idle, userName = ''ann''\<rparr>,
            sessionStart = None,
            localStorage = Some (Encodes (JArr
              [toJSON \<lparr>SessionLog.userName = ''ann'', sessionType = Work, startTime = 1000,
                       endTime = 2000, interrupted = True\<rparr>]))\<rparr>
   \<and> reachable example_stuck \<and> timerStatus (state example_stuck) = Running
   \<and> existing (localStorage example_stuck) = None
   \<and> (\<exists>x. handleInterrupt 2000 example_stuck = Inl x
          \<and> step Interrupt 2000 2001 2002 example_stuck = Inl x)
   \<and> timerStatus (state example_named) = Idle
   \<and> handleInterrupt 2000 example_named = Inr example_named"
  using C4_interrupt [of example_running "[]" 2000 2001 2002]
    C4_interrupt [of example_stuck "[]" 2000 2001 2002]
    C4_interrupt [of example_named "[]" 2000 2001 2002]
    reachable_example_running reachable_example_stuck
  by (simp add: example_running_def example_named_def example_stuck_def existing_def)

text \<open>
  C4 as the specification states it, for every running or paused state, fails: mounted
  over a stored text that is not JSON, named and started, the component is running, and
  \<open>handleInterrupt\<close> raises \<open>SyntaxError\<close>; no entry is appended and the timer is not
  reset.
\<close>

theorem C4_interrupt_raises:
  "reachable example_stuck \<and> timerStatus (state example_stuck) = Running
   \<and> handleInterrupt 2000 example_stuck = Inl SyntaxError
   \<and> step Interrupt 2000 2001 2002 example_stuck = Inl SyntaxError"
  using reachable_example_stuck
  by (simp add: example_stuck_def step_def handleInterrupt_def handleEndSession_def
      falsy_num_def saveSessionToLocalStorage_def truthy_text_def JSON_parse_def)

subsection \<open>A work session that runs out\<close>









subsection \<open>Appending twice, reloading, and what an event keeps\<close>

lemma fromJSON_toJSON: "fromJSON (toJSON l) = Some l"
  by (cases l; cases "sessionType l")
     (simp_all add: fromJSON_def toJSON_def sessionTypeName_def sessionTypeOfName_def)

lemma those_fromJSON: "those (map (fromJSON \<circ> toJSON) ls) = Some ls"
  by (induction ls) (simp_all add: fromJSON_toJSON)

lemma reload_array: "reload (Some (Encodes (JArr (map toJSON ls)))) = Some ls"
  by (simp add: reload_def JSON_parse_def those_fromJSON)

lemma save_Inr:
  assumes "saveSessionToLocalStorage l d = Inr d'"
  shows "\<exists>xs. existing d = Some xs \<and> d' = Some (Encodes (JArr (xs @ [toJSON l])))"
proof (cases "existing d")
  case None
  then have "\<exists>x. saveSessionToLocalStorage l d = Inl x"
    by (auto simp: existing_def saveSessionToLocalStorage_def truthy_text_def JSON_parse_def
        push_def split: option.splits stored_text.splits json.splits)
  with assms show ?thesis by simp
next
  case (Some xs)
  with assms show ?thesis by (simp add: save_existing)
qed

lemma preserved_refl: "preserved d d"
  by (simp add: preserved_def)

lemma take_prefix_trans:
  assumes "take (length xs) ys = xs" "take (length ys) zs = ys"
  shows "take (length xs) zs = xs"
proof -
  have "length (take (length xs) ys) \<le> length ys" by simp
  with assms(1) have "length xs \<le> length ys" by simp
  then have "take (length xs) zs = take (length xs) (take (length ys) zs)"
    by (simp add: min_def)
  with assms show ?thesis by simp
qed

lemma preserved_trans:
  assumes "preserved a b" "preserved b c"
  shows "preserved a c"
proof (cases "b = a \<or> c = b")
  case True
  with assms show ?thesis by auto
next
  case False
  with assms obtain xs ys zs where "existing a = Some xs" "existing b = Some ys"
    "existing c = Some zs" "take (length xs) ys = xs" "take (length ys) zs = ys"
    by (auto simp: preserved_def split: option.splits)
  then show ?thesis
    by (simp add: preserved_def take_prefix_trans)
qed

lemma preserved_save:
  "saveSessionToLocalStorage l d = Inr d' \<Longrightarrow> preserved d d'"
  by (drule save_Inr) (auto simp: preserved_def)

lemma preserved_endSession:
  assumes "handleEndSession b now c = Inr c'"
  shows "preserved (localStorage c) (localStorage c')"
proof (cases "falsy_num (sessionStart c)")
  case True
  with assms show ?thesis by (simp add: handleEndSession_def preserved_refl)
next
  case False
  then obtain t where t: "sessionStart c = Some t"
    by (cases "sessionStart c") (auto simp: falsy_num_def)
  with assms False obtain l d where "saveSessionToLocalStorage l (localStorage c) = Inr d"
    and "localStorage c' = d"
    by (auto simp: handleEndSession_def split: sum.splits)
  then show ?thesis by (auto dest: preserved_save)
qed

lemma preserved_handler:
  assumes "handler e now c = Inr d"
  shows "preserved (localStorage c) (localStorage d)"
proof (cases e)
  case StartPause
  have "localStorage (snd (handleStartPause now c)) = localStorage c"
    by (simp add: handleStartPause_def startNewSession_def Let_def)
  with assms StartPause show ?thesis
    by (auto simp: preserved_refl)
next
  case Interrupt
  with assms show ?thesis
    by (auto simp: handleInterrupt_def preserved_refl split: if_splits sum.splits
        dest: preserved_endSession)
next
  case Reset
  with assms show ?thesis
    by (auto simp: handleReset_def preserved_refl split: if_splits sum.splits
        dest: preserved_endSession)
next
  case (DurationChange k inc)
  with assms show ?thesis
    by (auto simp: handleDurationChange_def preserved_refl)
next
  case (UserNameChange v)
  with assms show ?thesis
    by (auto simp: handleUserNameChange_def preserved_refl)
next
  case Tick
  with assms show ?thesis
    by (auto simp: tick_def preserved_refl)
qed

lemma preserved_rerender:
  assumes "rerender now1 now2 c d = Inr c'"
  shows "preserved (localStorage d) (localStorage c')"
  using assms
  by (auto simp: rerender_def useEffect_def handleSessionSwitch_def startNewSession_def
      preserved_refl split: if_splits sum.splits dest: preserved_endSession)

lemma preserved_step:
  assumes "step e now now1 now2 c = Inr c'"
  shows "preserved (localStorage c) (localStorage c')"
proof -
  from assms obtain d where "handler e now c = Inr d" "rerender now1 now2 c d = Inr c'"
    by (auto simp: step_def split: sum.splits)
  then show ?thesis
    by (blast intro: preserved_trans preserved_handler preserved_rerender)
qed

text \<open>
  C8: over a stored sequence of records (or nothing stored), appending \<open>e1\<close> and then
  \<open>e2\<close> succeeds and stores the old sequence followed by \<open>e1\<close>, \<open>e2\<close>; reloading the
  stored item gives back the old records and then \<open>e1\<close>, \<open>e2\<close>, each with the field
  values it had. And whatever the component does in one event, the stored item
  afterwards is the same item or starts with all the entries that were stored before.
\<close>

theorem C8_append_roundtrip:
  "(existing d = Some (map toJSON ls) \<longrightarrow>
      (\<exists>d1 d2. saveSessionToLocalStorage e1 d = Inr d1
         \<and> saveSessionToLocalStorage e2 d1 = Inr d2
         \<and> existing d2 = Some (map toJSON ls @ [toJSON e1, toJSON e2])
         \<and> reload d2 = Some (ls @ [e1, e2])))
   \<and> (step e now now1 now2 c = Inr c' \<longrightarrow> preserved (localStorage c) (localStorage c'))"
proof (intro conjI impI)
  assume ex: "existing d = Some (map toJSON ls)"
  let ?d1 = "Some (Encodes (JArr (map toJSON ls @ [toJSON e1])))"
  let ?d2 = "Some (Encodes (JArr (map toJSON (ls @ [e1, e2]))))"
  have 1: "saveSessionToLocalStorage e1 d = Inr ?d1"
    using ex by (rule save_existing)
  have 2: "saveSessionToLocalStorage e2 ?d1 = Inr ?d2"
    by (simp add: save_existing)
  have 3: "existing ?d2 = Some (map toJSON ls @ [toJSON e1, toJSON e2])" by simp
  have 4: "reload ?d2 = Some (ls @ [e1, e2])" by (rule reload_array)
  from 1 2 3 4 show "\<exists>d1 d2. saveSessionToLocalStorage e1 d = Inr d1
         \<and> saveSessionToLocalStorage e2 d1 = Inr d2
         \<and> existing d2 = Some (map toJSON ls @ [toJSON e1, toJSON e2])
         \<and> reload d2 = Some (ls @ [e1, e2])"
    by blast
next
  assume "step e now now1 now2 c = Inr c'"
  then show "preserved (localStorage c) (localStorage c')" by (rule preserved_step)
qed

theorem C8_append_roundtrip_witness:
  "existing None = Some (map toJSON [])
   \<and> (\<exists>d1 d2.
        saveSessionToLocalStorage
          \<lparr>SessionLog.userName = ''ann'', sessionType = Work, startTime = 1000,
           endTime = 2000, interrupted = False\<rparr> None = Inr d1
      \<and> saveSessionToLocalStorage
          \<lparr>SessionLog.userName = ''ann'', sessionType = Break, startTime = 2000,
           endTime = 3000, interrupted = True\<rparr> d1 = Inr d2
      \<and> existing d2 =
          Some [toJSON \<lparr>SessionLog.userName = ''ann'', sessionType = Work, startTime = 1000,
                        endTime = 2000, interrupted = False\<rparr>,
                toJSON \<lparr>SessionLog.userName = ''ann'', sessionType = Break, startTime = 2000,
                        endTime = 3000, interrupted = True\<rparr>]
      \<and> reload d2 =
          Some [\<lparr>SessionLog.userName = ''ann'', sessionType = Work, startTime = 1000,
                 endTime = 2000, interrupted = False\<rparr>,
                \<lparr>SessionLog.userName = ''ann'', sessionType = Break, startTime = 2000,
                 endTime = 3000, interrupted = True\<rparr>])
   \<and> step Interrupt 2000 2001 2002 example_running =
       Inr \<lparr>state = \<lparr>workDuration = 5400, breakDuration = 300, currentTime = 5400,
                     currentSession = Work, timerStatus = Idle, userName = ''ann''\<rparr>,
            sessionStart = None,
            localStorage = Some (Encodes (JArr
              [toJSON \<lparr>SessionLog.userName = ''ann'', sessionType = Work, startTime = 1000,
                       endTime = 2000, interrupted = True\<rparr>]))\<rparr>
   \<and> preserved None (Some (Encodes (JArr
              [toJSON \<lparr>SessionLog.userName = ''ann'', sessionType = Work, startTime = 1000,
                       endTime = 2000, interrupted = True\<rparr>])))"
proof -
  have s: "step Interrupt 2000 2001 2002 example_running =
       Inr \<lparr>state = \<lparr>workDuration = 5400, breakDuration = 300, currentTime = 5400,
                     currentSession = Work, timerStatus = Idle, userName = ''ann''\<rparr>,
            sessionStart = None,
            localStorage = Some (Encodes (JArr
              [toJSON \<lparr>SessionLog.userName = ''ann'', sessionType = Work, startTime = 1000,
                       endTime = 2000, interrupted = True\<rparr>]))\<rparr>"
    by (simp add: step_def handleInterrupt_def handleEndSession_def falsy_num_def
        saveSessionToLocalStorage_def truthy_text_def push_def JSON_stringify_def
        resetState_def rerender_def useEffect_def example_running_def)
  from C8_append_roundtrip
         [of None "[]"
             "\<lparr>SessionLog.userName = ''ann'', sessionType = Work, startTime = 1000,
               endTime = 2000, interrupted = False\<rparr>"
             "\<lparr>SessionLog.userName = ''ann'', sessionType = Break, startTime = 2000,
               endTime = 3000, interrupted = True\<rparr>"
             Interrupt 2000 2001 2002 example_running
             "\<lparr>state = \<lparr>workDuration = 5400, breakDuration = 300, currentTime = 5400,
                     currentSession = Work, timerStatus = Idle, userName = ''ann''\<rparr>,
            sessionStart = None,
            localStorage = Some (Encodes (JArr
              [toJSON \<lparr>SessionLog.userName = ''ann'', sessionType = Work, startTime = 1000,
                       endTime = 2000, interrupted = True\<rparr>]))\<rparr>"] s
  show ?thesis by (simp add: existing_def example_running_def)
qed

subsection \<open>The name in a log entry\<close>

text \<open>
  C10: \<open>handleEndSession\<close>, the one place an entry is built, writes the \<open>userName\<close> of
  the state it is called in. Typing a name changes \<open>state.userName\<close> and nothing else,
  so an entry closed after the name was edited during the session carries the edited
  name.
\<close>

theorem C10_name_at_closure:
  "(sessionStart c = Some t \<longrightarrow> t \<noteq> 0 \<longrightarrow> existing (localStorage c) = Some xs \<longrightarrow>
      handleEndSession b now c =
        Inr (c\<lparr>localStorage := Some (Encodes (JArr (xs @
                 [toJSON \<lparr>SessionLog.userName = userName (state c),
                          sessionType = currentSession (state c),
                          startTime = t, endTime = now, interrupted = b\<rparr>]))),
               sessionStart := None\<rparr>)
      \<and> handleEndSession b now (handleUserNameChange v c) =
        Inr ((handleUserNameChange v c)\<lparr>localStorage := Some (Encodes (JArr (xs @
                 [toJSON \<lparr>SessionLog.userName = v,
                          sessionType = currentSession (state c),
                          startTime = t, endTime = now, interrupted = b\<rparr>]))),
               sessionStart := None\<rparr>))
   \<and> step (UserNameChange v) now0 now1 now2 c = Inr (handleUserNameChange v c)
   \<and> sessionStart (handleUserNameChange v c) = sessionStart c"
proof (intro conjI impI)
  assume t: "sessionStart c = Some t" "t \<noteq> 0" and ex: "existing (localStorage c) = Some xs"
  from t ex show "handleEndSession b now c =
        Inr (c\<lparr>localStorage := Some (Encodes (JArr (xs @
                 [toJSON \<lparr>SessionLog.userName = userName (state c),
                          sessionType = currentSession (state c),
                          startTime = t, endTime = now, interrupted = b\<rparr>]))),
               sessionStart := None\<rparr>)"
    by (rule endSession_open)
  have "handleEndSession b now (handleUserNameChange v c) =
        Inr ((handleUserNameChange v c)\<lparr>localStorage := Some (Encodes (JArr (xs @
                 [toJSON \<lparr>SessionLog.userName = userName (state (handleUserNameChange v c)),
                          sessionType = currentSession (state (handleUserNameChange v c)),
                          startTime = t, endTime = now, interrupted = b\<rparr>]))),
               sessionStart := None\<rparr>)"
    using t ex by (intro endSession_open) (simp_all add: handleUserNameChange_def)
  then show "handleEndSession b now (handleUserNameChange v c) =
        Inr ((handleUserNameChange v c)\<lparr>localStorage := Some (Encodes (JArr (xs @
                 [toJSON \<lparr>SessionLog.userName = v,
                          sessionType = currentSession (state c),
                          startTime = t, endTime = now, interrupted = b\<rparr>]))),
               sessionStart := None\<rparr>)"
    by (simp add: handleUserNameChange_def)
next
  show "step (UserNameChange v) now0 now1 now2 c = Inr (handleUserNameChange v c)"
    by (simp add: step_def rerender_def handleUserNameChange_def)
  show "sessionStart (handleUserNameChange v c) = sessionStart c"
    by (simp add: handleUserNameChange_def)
qed

theorem C10_name_at_closure_witness:
  "sessionStart example_running = Some 1000
   \<and> existing (localStorage example_running) = Some []
   \<and> userName (state example_running) = ''ann''
   \<and> handleEndSession True 2000 (handleUserNameChange ''bob'' example_running) =
       Inr \<lparr>state = \<lparr>workDuration = 5400, breakDuration = 300, currentTime = 5400,
                     currentSession = Work, timerStatus = Running, userName = ''bob''\<rparr>,
            sessionStart = None,
            localStorage = Some (Encodes (JArr
              [toJSON \<lparr>SessionLog.userName = ''bob'', sessionType = Work, startTime = 1000,
                       endTime = 2000, interrupted = True\<rparr>]))\<rparr>"
  using C10_name_at_closure [of example_running 1000 "[]" True 2000 "''bob''"]
  by (simp add: example_running_def existing_def handleUserNameChange_def)

subsection \<open>Decimal digits\<close>

declare digits.simps [simp del] bits.simps [simp del] shortest_at.simps [simp del]

lemma digit_char:
  assumes "d < 10"
  shows "decimal_digit (char_of (48 + d))" and "digit_value (char_of (48 + d)) = d"
    and "(char_of (48 + d) = CHR ''0'') = (d = 0)"
proof -
  from assms have m: "(48 + d) mod 256 = 48 + d" by simp
  have o: "(of_char (char_of (48 + d)) :: nat) = 48 + d"
    by (simp only: of_char_of m)
  from assms show "decimal_digit (char_of (48 + d))"
    by (simp add: decimal_digit_def o)
  show "digit_value (char_of (48 + d)) = d"
    by (simp only: digit_value_def o add_diff_cancel_left')
  have "(char_of (48 + d) = CHR ''0'') = ((of_char (char_of (48 + d)) :: nat) = of_char CHR ''0'')"
    by (simp only: of_char_eq_iff)
  also have "\<dots> = (d = 0)"
    by (simp only: o) simp
  finally show "(char_of (48 + d) = CHR ''0'') = (d = 0)" .
qed

lemma read_decimal_snoc: "read_decimal (s @ [ch]) = 10 * read_decimal s + digit_value ch"
  by (simp add: read_decimal_def)

lemma digits_nonempty: "digits n \<noteq> []"
  by (subst digits.simps) simp

lemma read_decimal_digits: "read_decimal (digits n) = n"
proof (induction n rule: digits.induct)
  case (1 n)
  show ?case
  proof (cases "n < 10")
    case True
    then show ?thesis
      by (subst digits.simps) (simp add: read_decimal_def digit_char)
  next
    case False
    with 1 have "read_decimal (digits (n div 10)) = n div 10" by simp
    with False show ?thesis
      by (subst digits.simps) (simp add: read_decimal_snoc digit_char)
  qed
qed

lemma digits_decimal: "list_all decimal_digit (digits n)"
proof (induction n rule: digits.induct)
  case (1 n)
  show ?case
  proof (cases "n < 10")
    case True
    then show ?thesis by (subst digits.simps) (simp add: digit_char)
  next
    case False
    with 1 have "list_all decimal_digit (digits (n div 10))" by simp
    with False show ?thesis by (subst digits.simps) (simp add: digit_char)
  qed
qed

lemma digits_no_leading_zero: "n \<noteq> 0 \<Longrightarrow> hd (digits n) \<noteq> CHR ''0''"
proof (induction n rule: digits.induct)
  case (1 n)
  show ?case
  proof (cases "n < 10")
    case True
    with 1(2) show ?thesis by (subst digits.simps) (simp add: digit_char)
  next
    case False
    then have "n div 10 \<noteq> 0" by simp
    with 1 False have "hd (digits (n div 10)) \<noteq> CHR ''0''" by simp
    with False show ?thesis by (subst digits.simps) (simp add: digits_nonempty)
  qed
qed

lemma digits_length_small: "n < 100 \<Longrightarrow> length (digits n) \<le> 2"
proof -
  assume a: "n < 100"
  show ?thesis
  proof (cases "n < 10")
    case True
    then show ?thesis by (subst digits.simps) simp
  next
    case False
    with a have "n div 10 < 10" by simp
    then have "length (digits (n div 10)) = 1" by (subst digits.simps) simp
    with False show ?thesis by (subst digits.simps) simp
  qed
qed

lemma digits_length_large: "100 \<le> n \<Longrightarrow> 2 < length (digits n)"
proof -
  assume a: "100 \<le> n"
  then have b: "\<not> n div 10 < 10" by simp
  have "length (digits (n div 10)) \<ge> 2"
    using b digits_nonempty [of "n div 10 div 10"]
    by (subst digits.simps) (simp add: Suc_le_eq)
  with a show ?thesis by (subst digits.simps) simp
qed

lemma read_decimal_zeros: "read_decimal (replicate k CHR ''0'' @ s) = read_decimal s"
  by (induction k) (simp_all add: read_decimal_def digit_value_def)

lemma padStart_digits:
  "2 \<le> length (padStart 2 CHR ''0'' (digits n))"
  "list_all decimal_digit (padStart 2 CHR ''0'' (digits n))"
  "read_decimal (padStart 2 CHR ''0'' (digits n)) = n"
  "n < 100 \<Longrightarrow> length (padStart 2 CHR ''0'' (digits n)) = 2"
  "2 < length (padStart 2 CHR ''0'' (digits n)) \<Longrightarrow> hd (padStart 2 CHR ''0'' (digits n)) \<noteq> CHR ''0''"
proof -
  show "2 \<le> length (padStart 2 CHR ''0'' (digits n))"
    by (simp add: padStart_def)
  have "list_all decimal_digit (replicate k CHR ''0'')" for k
    by (induction k) (simp_all add: decimal_digit_def)
  then show "list_all decimal_digit (padStart 2 CHR ''0'' (digits n))"
    by (simp add: padStart_def digits_decimal)
  show "read_decimal (padStart 2 CHR ''0'' (digits n)) = n"
    by (simp add: padStart_def read_decimal_zeros read_decimal_digits)
  show "n < 100 \<Longrightarrow> length (padStart 2 CHR ''0'' (digits n)) = 2"
    using digits_length_small [of n] by (simp add: padStart_def)
  show "hd (padStart 2 CHR ''0'' (digits n)) \<noteq> CHR ''0''"
    if "2 < length (padStart 2 CHR ''0'' (digits n))"
  proof -
    from that have l: "2 < length (digits n)" by (simp add: padStart_def split: if_splits) 
    then have "n \<noteq> 0" by (subst (asm) digits.simps) (auto split: if_splits)
    with l show ?thesis by (simp add: padStart_def digits_no_leading_zero)
  qed
qed

subsection \<open>The quotient by 60 of a safe integer\<close>

lemma bits_bound: "n < 2 ^ j \<Longrightarrow> bits n \<le> j"
proof (induction j arbitrary: n)
  case 0
  then show ?case by (simp add: bits.simps)
next
  case (Suc j)
  show ?case
  proof (cases "n = 0")
    case True
    then show ?thesis by (simp add: bits.simps)
  next
    case False
    from Suc.prems have "n div 2 < 2 ^ j" by simp
    then have "bits (n div 2) \<le> j" by (rule Suc.IH)
    with False show ?thesis by (subst bits.simps) simp
  qed
qed

lemma rne_bounds:
  assumes "0 < b"
  shows "2 * b * rne a b \<le> 2 * a + b" and "2 * a \<le> 2 * b * rne a b + b"
proof -
  define d where "d = a div b"
  define r where "r = a mod b"
  from assms have eq: "a = b * d + r" and lt: "r < b" by (simp_all add: d_def r_def)
  have v: "rne a b = (if 2 * r < b then d else if b < 2 * r then d + 1 else if even d then d else d + 1)"
    by (simp add: rne_def d_def r_def Let_def)
  have "2 * b * rne a b \<le> 2 * (b * d + r) + b"
    unfolding v using lt by (auto simp: algebra_simps)
  then show "2 * b * rne a b \<le> 2 * a + b" using eq by simp
  have "2 * (b * d + r) \<le> 2 * b * rne a b + b"
    unfolding v using lt by (auto simp: algebra_simps)
  then show "2 * a \<le> 2 * b * rne a b + b" using eq by simp
qed

text \<open>Below \<open>2^53\<close> the rounded quotient is less than \<open>1/64\<close> away from the exact one,
  which is at least \<open>1/60\<close> below the next integer: rounding never reaches it.\<close>

lemma floor_divide60:
  assumes "a < 2 ^ 53"
  shows "(case divide60 a of (n, k) \<Rightarrow> n div 2 ^ k) = a div 60"
proof (cases "a = 0")
  case True
  then show ?thesis by (simp add: divide60_def)
next
  case False
  define e where "e = bits ((a * 64) div 60) - 1"
  define k where "k = 58 - e"
  define P :: nat where "P = 2 ^ k"
  define N where "N = rne (a * P) 60"
  from assms have "a * 64 < 60 * 2 ^ 54" by simp
  then have "(a * 64) div 60 < 2 ^ 54" by (simp add: div_less_iff_less_mult)
  then have "bits ((a * 64) div 60) \<le> 54" by (rule bits_bound)
  then have e: "e \<le> 53" by (simp add: e_def)
  then have k: "5 \<le> k" by (simp add: k_def)
  have "(2::nat) ^ 5 \<le> 2 ^ k" using k by (intro power_increasing) simp_all
  then have P: "32 \<le> P" by (simp add: P_def)
  from False have "divide60 a =
      (let e = bits ((a * 64) div 60) - 1
       in if e < 58 then (rne (a * 2 ^ (58 - e)) 60, 58 - e)
          else (rne a (60 * 2 ^ (e - 58)) * 2 ^ (e - 58), 0))"
    by (simp only: divide60_def if_False)
  then have "divide60 a =
      (if e < 58 then (rne (a * 2 ^ (58 - e)) 60, 58 - e)
       else (rne a (60 * 2 ^ (e - 58)) * 2 ^ (e - 58), 0))"
    by (simp only: Let_def e_def)
  with e have d: "divide60 a = (N, k)"
    by (simp add: k_def N_def P_def)
  define m where "m = a div 60"
  define r where "r = a mod 60"
  have a: "a = 60 * m + r" and r: "r < 60" by (simp_all add: m_def r_def)
  from rne_bounds [of 60 "a * P"]
  have b1: "120 * N \<le> 2 * (a * P) + 60" and b2: "2 * (a * P) \<le> 120 * N + 60"
    by (simp_all add: N_def)
  define X where "X = m * P"
  define Y where "Y = r * P"
  have rP: "Y \<le> 59 * P" unfolding Y_def using r by (intro mult_right_mono) simp_all
  have aP: "a * P = 60 * X + Y" by (simp add: a X_def Y_def algebra_simps)
  from b1 b2 have c1: "120 * N \<le> 2 * (60 * X + Y) + 60" and c2: "2 * (60 * X + Y) \<le> 120 * N + 60"
    by (simp_all only: aP)
  from c2 have "X \<le> N" by simp
  then have lo: "P * m \<le> N" by (simp add: X_def mult.commute)
  from c1 have "120 * N \<le> 120 * X + 2 * Y + 60" by simp
  with rP P have "N < X + P" by linarith
  then have hi: "N < P * Suc m" by (simp add: X_def mult.commute)
  from lo hi have "N div P = m" by (rule div_nat_eqI)
  with d show ?thesis by (simp add: P_def m_def)
qed

lemma Math_floor_divide60:
  assumes "0 \<le> s" "s < 2 ^ 53"
  shows "Math_floor (js_divide60 s) = s div 60"
proof -
  obtain n k where nk: "divide60 (nat s) = (n, k)" by (cases "divide60 (nat s)")
  from assms have "nat s < 2 ^ 53" by (simp add: nat_less_iff)
  from floor_divide60 [OF this] nk have "n div 2 ^ k = nat s div 60" by simp
  then have "int (n div 2 ^ k) = int (nat s div 60)" by simp
  then have "int n div 2 ^ k = int (nat s) div 60" by (simp only: of_nat_div of_nat_power of_nat_numeral)
  with assms(1) have "int n div 2 ^ k = s div 60" by simp
  with assms(1) nk show ?thesis
    by (simp add: Math_floor_def js_divide60_def)
qed

lemma formatTime_finite:
  "\<bar>to_number secs\<bar> < 2 ^ 1024 \<Longrightarrow>
   formatTime secs =
     padStart 2 CHR ''0'' (toString (Math_floor (js_divide60 (to_number secs)))) @ '':'' @
     padStart 2 CHR ''0'' (toString (js_rem (to_number secs) 60))"
  by (simp add: formatTime_def Let_def)

lemma formatTime_safe:
  assumes "0 \<le> s" "s \<le> 9007199254740991"
  shows "formatTime s =
     padStart 2 CHR ''0'' (digits (nat (s div 60))) @ '':'' @
     padStart 2 CHR ''0'' (digits (nat (s mod 60)))"
proof -
  from assms have "nat s \<le> 2 ^ 53" by (simp add: nat_le_iff)
  with assms(1) have n: "to_number s = s" by (simp add: to_number_def nearest_double_def)
  from assms have "\<bar>s\<bar> < 2 ^ 1024" by simp
  with n have f: "formatTime s =
     padStart 2 CHR ''0'' (toString (Math_floor (js_divide60 s))) @ '':'' @
     padStart 2 CHR ''0'' (toString (js_rem s 60))"
    by (simp add: formatTime_finite)
  from assms have m: "Math_floor (js_divide60 s) = s div 60"
    by (intro Math_floor_divide60) simp_all
  from assms have "0 \<le> s div 60" "s div 60 \<le> 2 ^ 53" by simp_all
  then have tm: "toString (s div 60) = digits (nat (s div 60))"
    by (simp add: toString_def toString_nat_def nat_le_iff)
  from assms have r: "js_rem s 60 = s mod 60" by (simp add: js_rem_def)
  have "0 \<le> s mod 60" "s mod 60 \<le> 2 ^ 53" by simp_all
  then have tr: "toString (s mod 60) = digits (nat (s mod 60))"
    by (simp add: toString_def toString_nat_def nat_le_iff)
  from f m tm r tr show ?thesis by simp
qed

subsection \<open>Running \<open>formatTime\<close>\<close>

lemma digit_chars:
  "char_of (48::nat) = CHR ''0''" "char_of (49::nat) = CHR ''1''" "char_of (50::nat) = CHR ''2''"
  "char_of (51::nat) = CHR ''3''" "char_of (52::nat) = CHR ''4''" "char_of (53::nat) = CHR ''5''"
  "char_of (54::nat) = CHR ''6''" "char_of (55::nat) = CHR ''7''" "char_of (56::nat) = CHR ''8''"
  "char_of (57::nat) = CHR ''9''"
  by code_simp+

lemma shortest_at_skip:
  "j \<noteq> 0 \<Longrightarrow> nearest_double ((x div 10 ^ j) * 10 ^ j) \<noteq> x \<Longrightarrow>
   nearest_double ((x div 10 ^ j) * 10 ^ j + 10 ^ j) \<noteq> x \<Longrightarrow>
   shortest_at x j = shortest_at x (j - 1)"
  by (subst shortest_at.simps) (simp add: Let_def)

lemma shortest_at_below:
  "j \<noteq> 0 \<Longrightarrow> nearest_double ((x div 10 ^ j) * 10 ^ j) = x \<Longrightarrow>
   nearest_double ((x div 10 ^ j) * 10 ^ j + 10 ^ j) = x \<Longrightarrow>
   x - (x div 10 ^ j) * 10 ^ j < (x div 10 ^ j) * 10 ^ j + 10 ^ j - x \<Longrightarrow>
   shortest_at x j = (x div 10 ^ j) * 10 ^ j"
  by (subst shortest_at.simps) (simp add: Let_def)

lemma formatTime_examples:
  "formatTime 0 = ''00:00''" "formatTime 65 = ''01:05''" "formatTime 6000 = ''100:00''"
  by (simp_all add: formatTime_safe padStart_def digits.simps digit_chars)

text \<open>The number \<open>60 * 2^57\<close>: its quotient by 60 is the number \<open>2^57\<close>, and the shortest
  digits that identify \<open>2^57\<close> are not its own.\<close>

lemma formatTime_large: "formatTime 8646911284551352320 = ''144115188075855870:00''"
proof -
  have n: "to_number 8646911284551352320 = 8646911284551352320"
    by (simp add: to_number_def nearest_double_def rne_def bits.simps)
  have m: "Math_floor (js_divide60 8646911284551352320) = 144115188075855872"
    by (simp add: js_divide60_def divide60_def rne_def Math_floor_def bits.simps)
  have r: "js_rem 8646911284551352320 60 = 0" by (simp add: js_rem_def)
  have l: "length (digits 144115188075855872) = 18"
    by (simp add: digits.simps)
  have s: "shortest 144115188075855872 = 144115188075855870"
    unfolding shortest_def l
    by (simp add: shortest_at_skip shortest_at_below nearest_double_def rne_def bits.simps)
  have "toString 144115188075855872 = ''144115188075855870''" "toString 0 = ''0''"
    by (simp_all add: toString_def toString_nat_def s digits.simps digit_chars)
  with n m r show ?thesis
    by (simp add: formatTime_finite padStart_def)
qed

subsection \<open>\<open>formatTime\<close> writes minutes and seconds\<close>

text \<open>
  C9, as the code has it: for an integer \<open>s\<close> from \<open>0\<close> to \<open>2^53 - 1\<close> (the safe integers
  of JavaScript), \<open>formatTime s\<close> is a string of digits, a colon and two digits. The
  digits before the colon read as \<open>s div 60\<close>, the two after it as \<open>s mod 60\<close>. There are
  at least two digits before the colon, and when there are more than two the first is
  not \<open>0\<close>: the minutes are padded to two digits and never cut. And
  \<open>formatTime 0 = "00:00"\<close>, \<open>formatTime 65 = "01:05"\<close>, \<open>formatTime 6000 = "100:00"\<close>.
\<close>

theorem C9_formatTime:
  "(0 \<le> s \<longrightarrow> s \<le> 9007199254740991 \<longrightarrow>
      (\<exists>mm ss. formatTime s = mm @ '':'' @ ss
         \<and> list_all decimal_digit mm \<and> list_all decimal_digit ss
         \<and> read_decimal mm = nat (s div 60) \<and> read_decimal ss = nat (s mod 60)
         \<and> 2 \<le> length mm \<and> length ss = 2
         \<and> (2 < length mm \<longrightarrow> hd mm \<noteq> CHR ''0'')))
   \<and> formatTime 0 = ''00:00'' \<and> formatTime 65 = ''01:05'' \<and> formatTime 6000 = ''100:00''"
proof (intro conjI impI)
  assume s: "0 \<le> s" "s \<le> 9007199254740991"
  let ?mm = "padStart 2 CHR ''0'' (digits (nat (s div 60)))"
  let ?ss = "padStart 2 CHR ''0'' (digits (nat (s mod 60)))"
  from s have f: "formatTime s = ?mm @ '':'' @ ?ss"
    by (rule formatTime_safe)
  have "nat (s mod 60) < 100" by simp
  then have "length ?ss = 2" by (rule padStart_digits(4))
  with f padStart_digits [of "nat (s div 60)"] padStart_digits(2,3) [of "nat (s mod 60)"]
  show "\<exists>mm ss. formatTime s = mm @ '':'' @ ss
         \<and> list_all decimal_digit mm \<and> list_all decimal_digit ss
         \<and> read_decimal mm = nat (s div 60) \<and> read_decimal ss = nat (s mod 60)
         \<and> 2 \<le> length mm \<and> length ss = 2
         \<and> (2 < length mm \<longrightarrow> hd mm \<noteq> CHR ''0'')"
    by blast
next
  show "formatTime 0 = ''00:00''" by (rule formatTime_examples)
  show "formatTime 65 = ''01:05''" by (rule formatTime_examples)
  show "formatTime 6000 = ''100:00''" by (rule formatTime_examples)
qed

theorem C9_formatTime_witness:
  "(0::int) \<le> 65 \<and> (65::int) \<le> 9007199254740991 \<and> formatTime 65 = ''01'' @ '':'' @ ''05''
   \<and> read_decimal ''01'' = nat (65 div 60) \<and> read_decimal ''05'' = nat (65 mod 60)"
  using C9_formatTime [of 65] by (simp add: read_decimal_def digit_value_def)

text \<open>
  C9 as the specification states it, for every non-negative integer, fails: the number
  \<open>8646911284551352320\<close> is \<open>60 * 2^57\<close>, a double, and \<open>formatTime\<close> writes its minutes
  as \<open>144115188075855870\<close>, which is not \<open>8646911284551352320 div 60\<close>.
\<close>

theorem C9_minutes_not_exact:
  "to_number 8646911284551352320 = 8646911284551352320
   \<and> formatTime 8646911284551352320 = ''144115188075855870:00''
   \<and> read_decimal ''144115188075855870'' = 144115188075855870
   \<and> nat (8646911284551352320 div 60) = 144115188075855872"
proof -
  have "to_number 8646911284551352320 = 8646911284551352320"
    by (simp add: to_number_def nearest_double_def rne_def bits.simps)
  moreover have "read_decimal ''144115188075855870'' = 144115188075855870"
    by (simp add: read_decimal_def digit_value_def)
  moreover have "nat (8646911284551352320 div 60) = 144115188075855872" by simp
  ultimately show ?thesis using formatTime_large by simp
qed

end
